theory Spec2Isabelle
  imports Main "HOL-Library.Multiset"
begin

section \<open>Card model (types.ts)\<close>

text \<open>
  \<^verbatim>\<open>Suit\<close> and \<^verbatim>\<open>Rank\<close> are string-literal unions in the source; they are
  datatypes here, with \<open>suitStr\<close> and \<open>rankStr\<close> giving the literal each constructor
  stands for (the literals appear in the card identifier).
\<close>

datatype Suit = Hearts | Diamonds | Clubs | Spades

datatype Rank = Ace | R2 | R3 | R4 | R5 | R6 | R7 | R8 | R9 | R10 | Jack | Queen | King

fun suitStr :: "Suit \<Rightarrow> string" where
  "suitStr Hearts = ''hearts''"
| "suitStr Diamonds = ''diamonds''"
| "suitStr Clubs = ''clubs''"
| "suitStr Spades = ''spades''"

fun rankStr :: "Rank \<Rightarrow> string" where
  "rankStr Ace = ''A''"
| "rankStr R2 = ''2''"
| "rankStr R3 = ''3''"
| "rankStr R4 = ''4''"
| "rankStr R5 = ''5''"
| "rankStr R6 = ''6''"
| "rankStr R7 = ''7''"
| "rankStr R8 = ''8''"
| "rankStr R9 = ''9''"
| "rankStr R10 = ''10''"
| "rankStr Jack = ''J''"
| "rankStr Queen = ''Q''"
| "rankStr King = ''K''"

text \<open>
  \<^verbatim>\<open>interface CardData { id: string; suit: Suit; rank: Rank; value: number }\<close>.
  The fields \<^verbatim>\<open>id\<close> and \<^verbatim>\<open>value\<close> are called \<open>card_id\<close> and \<open>card_value\<close>.
\<close>

record CardData =
  card_id :: string
  suit :: Suit
  rank :: Rank
  card_value :: int

datatype GameStatus = Menu | Playing | GameOver

datatype Participant = Player | Ai

section \<open>Deck creation and shuffle (utils/gameLogic.ts)\<close>

definition SUITS :: "Suit list" where
  "SUITS = [Hearts, Diamonds, Clubs, Spades]"

definition RANKS :: "Rank list" where
  "RANKS = [Ace, R2, R3, R4, R5, R6, R7, R8, R9, R10, Jack, Queen, King]"

text \<open>Decimal rendering of a number inside a template string.\<close>

definition digitChar :: "nat \<Rightarrow> char" where
  "digitChar d = ''0123456789'' ! d"

function showNat :: "nat \<Rightarrow> string" where
  "showNat n = (if n < 10 then [digitChar n] else showNat (n div 10) @ [digitChar (n mod 10)])"
  by pat_completeness auto
termination
  by (relation "measure (\<lambda>n. n)") auto

declare showNat.simps [simp del]

text \<open>
  \<^verbatim>\<open>if (rank === 'A') value = 1; else if (['J','Q','K'].includes(rank)) value = 10;
  else value = parseInt(rank);\<close>
\<close>

fun rankValue :: "Rank \<Rightarrow> int" where
  "rankValue Ace = 1"
| "rankValue Jack = 10"
| "rankValue Queen = 10"
| "rankValue King = 10"
| "rankValue R2 = 2"
| "rankValue R3 = 3"
| "rankValue R4 = 4"
| "rankValue R5 = 5"
| "rankValue R6 = 6"
| "rankValue R7 = 7"
| "rankValue R8 = 8"
| "rankValue R9 = 9"
| "rankValue R10 = 10"

text \<open>
  The object pushed by the inner loop of \<^verbatim>\<open>createDeck\<close>. \<open>now\<close> stands for
  \<^verbatim>\<open>Date.now()\<close>: \<open>now k\<close> is the clock value read while the card with counter
  \<open>k\<close> is built.
\<close>

definition mkCard :: "(nat \<Rightarrow> nat) \<Rightarrow> Suit \<Rightarrow> Rank \<Rightarrow> nat \<Rightarrow> CardData" where
  "mkCard now s r idCounter =
     \<lparr>card_id = rankStr r @ ''-'' @ suitStr s @ ''-'' @ showNat idCounter @ ''-''
                 @ showNat (now idCounter),
      suit = s, rank = r, card_value = rankValue r\<rparr>"

text \<open>
  The two nested \<^verbatim>\<open>forEach\<close> loops, threading the array under construction and
  \<^verbatim>\<open>idCounter\<close>.
\<close>

definition pushRank :: "(nat \<Rightarrow> nat) \<Rightarrow> Suit \<Rightarrow> Rank \<Rightarrow> CardData list \<times> nat \<Rightarrow> CardData list \<times> nat" where
  "pushRank now s r st = (fst st @ [mkCard now s r (snd st)], Suc (snd st))"

definition pushSuit :: "(nat \<Rightarrow> nat) \<Rightarrow> Suit \<Rightarrow> CardData list \<times> nat \<Rightarrow> CardData list \<times> nat" where
  "pushSuit now s st = fold (pushRank now s) RANKS st"

definition orderedDeck :: "(nat \<Rightarrow> nat) \<Rightarrow> CardData list" where
  "orderedDeck now = fst (fold (pushSuit now) SUITS ([], 0))"

text \<open>
  \<^verbatim>\<open>Math.floor(Math.random() * n)\<close> for \<open>n > 0\<close> is some index below \<open>n\<close>. The
  random draw is a parameter: a natural number \<open>r\<close>, selecting the index \<open>r mod n\<close>, so
  that every index below \<open>n\<close> and no other can be selected.
\<close>

definition randIndex :: "nat \<Rightarrow> nat \<Rightarrow> nat" where
  "randIndex r n = r mod n"

text \<open>
  \<^verbatim>\<open>[newDeck[i], newDeck[j]] = [newDeck[j], newDeck[i]]\<close>: both reads happen before
  both writes. The loop only calls it with \<open>j \<le> i < length xs\<close>.
\<close>

definition swap :: "nat \<Rightarrow> nat \<Rightarrow> 'a list \<Rightarrow> 'a list" where
  "swap i j xs = (let a = xs ! j; b = xs ! i in (xs[i := a])[j := b])"

text \<open>
  \<^verbatim>\<open>for (let i = newDeck.length - 1; i > 0; i--)\<close>; \<open>rnd i\<close> is the random draw of
  the iteration with index \<open>i\<close>.
\<close>

primrec shuffleLoop :: "(nat \<Rightarrow> nat) \<Rightarrow> nat \<Rightarrow> 'a list \<Rightarrow> 'a list" where
  "shuffleLoop rnd 0 newDeck = newDeck"
| "shuffleLoop rnd (Suc i) newDeck =
     shuffleLoop rnd i (swap (Suc i) (randIndex (rnd (Suc i)) (Suc i + 1)) newDeck)"

definition shuffle :: "(nat \<Rightarrow> nat) \<Rightarrow> 'a list \<Rightarrow> 'a list" where
  "shuffle rnd deck = shuffleLoop rnd (length deck - 1) deck"

definition createDeck :: "(nat \<Rightarrow> nat) \<Rightarrow> (nat \<Rightarrow> nat) \<Rightarrow> CardData list" where
  "createDeck rnd now = shuffle rnd (orderedDeck now)"

section \<open>Move legality and the computer's move chooser (utils/gameLogic.ts)\<close>

text \<open>
  \<^verbatim>\<open>card\<close> and \<^verbatim>\<open>topCard\<close> may be \<^verbatim>\<open>undefined\<close> (the function tests both), and
  \<^verbatim>\<open>currentSuit\<close> may be \<^verbatim>\<open>null\<close>: all three are options.
  \<^verbatim>\<open>currentSuit || topCard.suit\<close> takes \<^verbatim>\<open>currentSuit\<close> unless it is \<^verbatim>\<open>null\<close>
  (a suit is a non-empty string, hence truthy).
\<close>

fun isValidMove :: "CardData option \<Rightarrow> CardData option \<Rightarrow> Suit option \<Rightarrow> bool" where
  "isValidMove None topCard currentSuit = False"
| "isValidMove (Some c) topCard currentSuit =
     (if rank c = Ace then True
      else case topCard of
        None \<Rightarrow> True
      | Some t \<Rightarrow>
          (let targetSuit = (case currentSuit of None \<Rightarrow> suit t | Some s \<Rightarrow> s)
           in suit c = targetSuit \<or> rank c = rank t))"

text \<open>
  \<open>r\<close> is the random draw of \<^verbatim>\<open>normalMoves[Math.floor(Math.random() * normalMoves.length)]\<close>.
  \<^verbatim>\<open>hand.find\<close> returns the first Ace of the hand, or \<^verbatim>\<open>undefined\<close>, which becomes
  the \<^verbatim>\<open>null\<close> of the last line.
\<close>

definition getAiMove :: "nat \<Rightarrow> CardData list \<Rightarrow> CardData option \<Rightarrow> Suit option \<Rightarrow> CardData option" where
  "getAiMove r hand topCard currentSuit =
     (if hand = [] \<or> topCard = None then None
      else
        let normalMoves = filter (\<lambda>c. rank c \<noteq> Ace \<and> isValidMove (Some c) topCard currentSuit) hand
        in if length normalMoves > 0
           then Some (normalMoves ! randIndex r (length normalMoves))
           else find (\<lambda>c. rank c = Ace) hand)"

section \<open>Game state and reducer (App.tsx)\<close>

text \<open>
  The \<^verbatim>\<open>message\<close> field holds one of ten fixed texts (most of them Chinese); each is a
  constructor here: the empty string of \<^verbatim>\<open>initialState\<close>, "your turn", "you won",
  "please choose a suit", "the computer is thinking", "the computer won", "you drew a card",
  "the computer drew a card", "suit declared", "draw pile empty, turn skipped".
\<close>

datatype Message =
    MsgEmpty | MsgYourTurn | MsgYouWin | MsgChooseSuit | MsgAiThinking | MsgAiWins
  | MsgPlayerDrew | MsgAiDrew | MsgSuitSet | MsgSkip

record GameState =
  status :: GameStatus
  deck :: "CardData list"
  playerHand :: "CardData list"
  aiHand :: "CardData list"
  discardPile :: "CardData list"
  turn :: Participant
  currentSuit :: "Suit option"
  message :: Message
  isAiThinking :: bool
  showSuitPicker :: bool

datatype GameAction =
    START_GAME
  | PLAYER_PLAY CardData
  | AI_PLAY CardData
  | DRAW Participant
  | SET_SUIT Suit
  | SET_MENU
  | SET_AI_THINKING bool
  | SKIP_TURN Participant

definition initialState :: GameState where
  "initialState =
     \<lparr>status = Menu, deck = [], playerHand = [], aiHand = [], discardPile = [],
      turn = Player, currentSuit = None, message = MsgEmpty, isAiThinking = False,
      showSuitPicker = False\<rparr>"

text \<open>
  \<^verbatim>\<open>Array.prototype.pop\<close>: the last element and the shortened array, or
  \<^verbatim>\<open>undefined\<close> (\<open>None\<close>) on an empty array.
\<close>

definition pop :: "'a list \<Rightarrow> ('a \<times> 'a list) option" where
  "pop xs = (if xs = [] then None else Some (last xs, butlast xs))"

text \<open>
  \<^verbatim>\<open>while (firstDiscard.rank === 'A') { newDeck.unshift(firstDiscard);
  firstDiscard = newDeck.pop()!; }\<close>. After the \<^verbatim>\<open>unshift\<close> the array is not empty,
  so the \<^verbatim>\<open>pop\<close> inside the loop always yields a card. The loop need not terminate
  on an arbitrary array (one holding Aces only): \<open>None\<close> is "does not return".
\<close>

partial_function (option) seedLoop :: "CardData list \<Rightarrow> CardData \<Rightarrow> (CardData list \<times> CardData) option" where
  "seedLoop newDeck firstDiscard =
     (if rank firstDiscard = Ace
      then seedLoop (butlast (firstDiscard # newDeck)) (last (firstDiscard # newDeck))
      else Some (newDeck, firstDiscard))"

declare seedLoop.simps [code]

text \<open>
  The body of the \<^verbatim>\<open>START_GAME\<close> case after \<^verbatim>\<open>createDeck()\<close> has returned
  \<open>created\<close>. \<^verbatim>\<open>splice(0, 8)\<close> removes and returns the first eight elements (fewer
  when the array is shorter). On an empty array the first \<^verbatim>\<open>pop\<close> gives
  \<^verbatim>\<open>undefined\<close> and reading its \<^verbatim>\<open>rank\<close> throws: no state is returned.
\<close>

definition dealGame :: "CardData list \<Rightarrow> GameState option" where
  "dealGame created =
     (let pHand = take 8 created;
          newDeck1 = drop 8 created;
          aHand = take 8 newDeck1;
          newDeck2 = drop 8 newDeck1
      in case pop newDeck2 of
           None \<Rightarrow> None
         | Some (firstDiscard0, newDeck3) \<Rightarrow>
             (case seedLoop newDeck3 firstDiscard0 of
                None \<Rightarrow> None
              | Some (newDeck, firstDiscard) \<Rightarrow>
                  Some (initialState\<lparr>status := Playing, deck := newDeck, playerHand := pHand,
                          aiHand := aHand, discardPile := [firstDiscard],
                          message := MsgYourTurn\<rparr>)))"

text \<open>
  The reducer. \<open>rnd\<close> and \<open>now\<close> are the random draws and clock values that
  \<^verbatim>\<open>createDeck\<close> consumes; only \<^verbatim>\<open>START_GAME\<close> uses them. The result is \<open>None\<close>
  when the source returns no state (see \<open>dealGame\<close>). The \<^verbatim>\<open>default\<close> branch of the
  \<^verbatim>\<open>switch\<close> cannot be taken by a value of type \<^verbatim>\<open>GameAction\<close>.
\<close>

fun gameReducer :: "(nat \<Rightarrow> nat) \<Rightarrow> (nat \<Rightarrow> nat) \<Rightarrow> GameState \<Rightarrow> GameAction \<Rightarrow> GameState option" where
  "gameReducer rnd now state START_GAME = dealGame (createDeck rnd now)"
| "gameReducer rnd now state (PLAYER_PLAY c) =
     (let newHand = filter (\<lambda>h. card_id h \<noteq> card_id c) (playerHand state);
          isGameOver = (length newHand = 0)
      in Some (state\<lparr>playerHand := newHand,
                 discardPile := discardPile state @ [c],
                 status := (if isGameOver then GameOver else status state),
                 showSuitPicker := (\<not> isGameOver \<and> rank c = Ace),
                 currentSuit := (if rank c = Ace then currentSuit state else None),
                 turn := (if isGameOver \<or> rank c = Ace then Player else Ai),
                 message := (if isGameOver then MsgYouWin
                             else if rank c = Ace then MsgChooseSuit else MsgAiThinking)\<rparr>))"
| "gameReducer rnd now state (AI_PLAY c) =
     (let newHand = filter (\<lambda>h. card_id h \<noteq> card_id c) (aiHand state);
          isGameOver = (length newHand = 0)
      in Some (state\<lparr>aiHand := newHand,
                 discardPile := discardPile state @ [c],
                 status := (if isGameOver then GameOver else status state),
                 currentSuit := (if rank c = Ace then currentSuit state else None),
                 turn := Player,
                 message := (if isGameOver then MsgAiWins else MsgYourTurn)\<rparr>))"
| "gameReducer rnd now state (DRAW who) =
     (if length (deck state) = 0 then Some state
      else
        let newDeck = butlast (deck state);
            drawnCard = last (deck state)
        in if who = Player
           then Some (state\<lparr>deck := newDeck,
                        playerHand := playerHand state @ [drawnCard],
                        turn := Ai,
                        message := MsgPlayerDrew\<rparr>)
           else Some (state\<lparr>deck := newDeck,
                        aiHand := aiHand state @ [drawnCard],
                        turn := Player,
                        message := MsgAiDrew\<rparr>))"
| "gameReducer rnd now state (SET_SUIT s) =
     Some (state\<lparr>currentSuit := Some s, showSuitPicker := False, turn := Ai,
              message := MsgSuitSet\<rparr>)"
| "gameReducer rnd now state SET_MENU = Some (initialState\<lparr>status := Menu\<rparr>)"
| "gameReducer rnd now state (SET_AI_THINKING v) = Some (state\<lparr>isAiThinking := v\<rparr>)"
| "gameReducer rnd now state (SKIP_TURN who) =
     Some (state\<lparr>turn := (if who = Player then Ai else Player), message := MsgSkip\<rparr>)"

section \<open>The dispatching layer (GameContent in App.tsx)\<close>

text \<open>
  \<^verbatim>\<open>state.discardPile[state.discardPile.length - 1]\<close>: \<^verbatim>\<open>undefined\<close> on an empty
  pile.
\<close>

definition topCardOf :: "GameState \<Rightarrow> CardData option" where
  "topCardOf state = (if discardPile state = [] then None else Some (last (discardPile state)))"

text \<open>Dispatching a sequence of actions: the reducer is applied to each in turn.\<close>

fun dispatchAll :: "(nat \<Rightarrow> nat) \<Rightarrow> (nat \<Rightarrow> nat) \<Rightarrow> GameState \<Rightarrow> GameAction list \<Rightarrow> GameState option" where
  "dispatchAll rnd now state [] = Some state"
| "dispatchAll rnd now state (a # as) =
     (case gameReducer rnd now state a of
        None \<Rightarrow> None
      | Some state' \<Rightarrow> dispatchAll rnd now state' as)"

text \<open>\<^verbatim>\<open>handlePlayerPlay\<close>: the click handler of a card of the player's hand.\<close>

definition handlePlayerPlay :: "(nat \<Rightarrow> nat) \<Rightarrow> (nat \<Rightarrow> nat) \<Rightarrow> GameState \<Rightarrow> CardData \<Rightarrow> GameState option" where
  "handlePlayerPlay rnd now state c =
     (if status state \<noteq> Playing \<or> turn state \<noteq> Player \<or> isAiThinking state then Some state
      else if isValidMove (Some c) (topCardOf state) (currentSuit state)
           then gameReducer rnd now state (PLAYER_PLAY c)
           else Some state)"

text \<open>
  The actions dispatched by the timer callback of the computer's effect, decided on the
  snapshot \<open>state\<close> that the effect captured. \<open>r1\<close> is the random draw of
  \<^verbatim>\<open>getAiMove\<close>, \<open>r2\<close> that of the suit (\<^verbatim>\<open>SUITS[Math.floor(Math.random() *
  SUITS.length)]\<close>). The test of \<^verbatim>\<open>isMounted\<close> is left out: a callback whose effect
  was cleaned up has had its timer cleared.
\<close>

definition aiTimerActions :: "nat \<Rightarrow> nat \<Rightarrow> GameState \<Rightarrow> GameAction list" where
  "aiTimerActions r1 r2 state =
     (if status state \<noteq> Playing \<or> turn state \<noteq> Ai then []
      else
        (case getAiMove r1 (aiHand state) (topCardOf state) (currentSuit state) of
           Some move \<Rightarrow>
             AI_PLAY move #
             (if rank move = Ace then [SET_SUIT (SUITS ! randIndex r2 (length SUITS))] else [])
         | None \<Rightarrow>
             (if length (deck state) > 0 then [DRAW Ai] else [SKIP_TURN Ai]))
        @ [SET_AI_THINKING False])"

text \<open>
  The computer's effect as a whole: when its condition holds it dispatches
  \<^verbatim>\<open>SET_AI_THINKING\<close> and, 1500 ms later, the actions of the timer callback.
\<close>

definition aiEffectActions :: "nat \<Rightarrow> nat \<Rightarrow> GameState \<Rightarrow> GameAction list" where
  "aiEffectActions r1 r2 state =
     (if status state = Playing \<and> turn state = Ai \<and> \<not> isAiThinking state
      then SET_AI_THINKING True # aiTimerActions r1 r2 state
      else [])"

definition aiEffect :: "(nat \<Rightarrow> nat) \<Rightarrow> (nat \<Rightarrow> nat) \<Rightarrow> nat \<Rightarrow> nat \<Rightarrow> GameState \<Rightarrow> GameState option" where
  "aiEffect rnd now r1 r2 state = dispatchAll rnd now state (aiEffectActions r1 r2 state)"


section \<open>Card conservation: zones, reachable games\<close>

text \<open>The four zones of a game, as one list, and the number of cards they hold.\<close>

definition zones :: "GameState \<Rightarrow> CardData list" where
  "zones state = deck state @ playerHand state @ aiHand state @ discardPile state"

definition zoneCount :: "GameState \<Rightarrow> nat" where
  "zoneCount state =
     length (deck state) + length (playerHand state) + length (aiHand state)
       + length (discardPile state)"

definition suitRank :: "CardData \<Rightarrow> Suit \<times> Rank" where
  "suitRank c = (suit c, rank c)"

text \<open>
  A play action carries a card; \<open>playsHeldCard\<close> says that the card is one of the hand it
  is played from. The other actions carry no card.
\<close>

fun playsHeldCard :: "GameState \<Rightarrow> GameAction \<Rightarrow> bool" where
  "playsHeldCard state (PLAYER_PLAY c) = (c \<in> set (playerHand state))"
| "playsHeldCard state (AI_PLAY c) = (c \<in> set (aiHand state))"
| "playsHeldCard state a = True"

text \<open>
  The states of games: what \<^verbatim>\<open>START_GAME\<close> returns (from any state, with any shuffle),
  and what the reducer returns from such a state for any action whose card, if it has one,
  is held by the hand it is played from.
\<close>

inductive reachable :: "GameState \<Rightarrow> bool" where
  start: "gameReducer rnd now state START_GAME = Some state' \<Longrightarrow> reachable state'"
| step: "reachable state \<Longrightarrow> playsHeldCard state a
           \<Longrightarrow> gameReducer rnd now state a = Some state' \<Longrightarrow> reachable state'"

text \<open>
  A sequence of actions, dispatched from \<open>state\<close>, plays held cards only: each play
  carries a card of the acting hand of the state it is applied to.
\<close>

fun heldThroughout :: "(nat \<Rightarrow> nat) \<Rightarrow> (nat \<Rightarrow> nat) \<Rightarrow> GameState \<Rightarrow> GameAction list \<Rightarrow> bool" where
  "heldThroughout rnd now state [] = True"
| "heldThroughout rnd now state (a # as) =
     (playsHeldCard state a
      \<and> (case gameReducer rnd now state a of
            None \<Rightarrow> True
          | Some state' \<Rightarrow> heldThroughout rnd now state' as))"

text \<open>
  The zones hold the full deck: no identifier twice, and every pair of a suit and a rank
  exactly once.
\<close>

definition fullDeck :: "GameState \<Rightarrow> bool" where
  "fullDeck state \<longleftrightarrow>
     distinct (map card_id (zones state))
     \<and> mset (map suitRank (zones state)) = mset (List.product SUITS RANKS)"

definition gameInv :: "GameState \<Rightarrow> bool" where
  "gameInv state \<longleftrightarrow>
     (status state = Menu \<and> zones state = []) \<or> (status state \<noteq> Menu \<and> fullDeck state)"

section \<open>Example cards and states\<close>

text \<open>
  Concrete inputs on which the definitions are evaluated below: a shuffle whose every
  draw is 0, a clock that always reads 0, the cards of the deck created with that clock
  (\<open>nthCard k\<close> is the card with counter \<open>k\<close>), and some states.
\<close>

definition rnd0 :: "nat \<Rightarrow> nat" where
  "rnd0 i = 0"

definition now0 :: "nat \<Rightarrow> nat" where
  "now0 k = 0"

definition nthCard :: "nat \<Rightarrow> CardData" where
  "nthCard k = mkCard now0 (SUITS ! (k div 13)) (RANKS ! (k mod 13)) k"

definition aceHearts :: CardData where
  "aceHearts = mkCard now0 Hearts Ace 0"

definition fiveHearts :: CardData where
  "fiveHearts = mkCard now0 Hearts R5 4"

definition fiveDiamonds :: CardData where
  "fiveDiamonds = mkCard now0 Diamonds R5 17"

definition kingClubs :: CardData where
  "kingClubs = mkCard now0 Clubs King 38"

definition aceSpades :: CardData where
  "aceSpades = mkCard now0 Spades Ace 39"

definition twoSpades :: CardData where
  "twoSpades = mkCard now0 Spades R2 40"

definition queenHearts :: CardData where
  "queenHearts = mkCard now0 Hearts Queen 11"

lemmas example_cards =
  aceHearts_def fiveHearts_def fiveDiamonds_def kingClubs_def aceSpades_def twoSpades_def
  queenHearts_def mkCard_def

text \<open>
  The player to move on an Ace of hearts for which diamonds were declared; the two of
  spades in the player's hand is not a legal play.
\<close>

definition exDeclared :: GameState where
  "exDeclared =
     \<lparr>status = Playing, deck = [queenHearts],
      playerHand = [aceSpades, fiveDiamonds, twoSpades],
      aiHand = [kingClubs], discardPile = [fiveHearts, aceHearts], turn = Player,
      currentSuit = Some Diamonds, message = MsgYourTurn, isAiThinking = False,
      showSuitPicker = False\<rparr>"

text \<open>The computer to move on the five of hearts; its only legal play is the Ace.\<close>

definition exAiTurn :: GameState where
  "exAiTurn =
     \<lparr>status = Playing, deck = [aceHearts], playerHand = [fiveDiamonds, twoSpades],
      aiHand = [kingClubs, aceSpades], discardPile = [fiveHearts], turn = Ai,
      currentSuit = None, message = MsgAiThinking, isAiThinking = False,
      showSuitPicker = False\<rparr>"

text \<open>
  The state after the computer's effect has run in \<open>exAiTurn\<close> with hearts as the
  random suit.
\<close>

definition exAiAfterAce :: GameState where
  "exAiAfterAce =
     \<lparr>status = Playing, deck = [aceHearts], playerHand = [fiveDiamonds, twoSpades],
      aiHand = [kingClubs], discardPile = [fiveHearts, aceSpades], turn = Ai,
      currentSuit = Some Hearts, message = MsgSuitSet, isAiThinking = False,
      showSuitPicker = False\<rparr>"

text \<open>The computer to move with no legal play and an empty draw pile.\<close>

definition exAiStuck :: GameState where
  "exAiStuck =
     \<lparr>status = Playing, deck = [], playerHand = [fiveDiamonds, twoSpades],
      aiHand = [kingClubs], discardPile = [aceHearts, fiveHearts], turn = Ai,
      currentSuit = None, message = MsgAiThinking, isAiThinking = False,
      showSuitPicker = False\<rparr>"

text \<open>The computer to move with its last card, and the state after it has played it.\<close>

definition exAiLast :: GameState where
  "exAiLast =
     \<lparr>status = Playing, deck = [aceHearts], playerHand = [twoSpades, kingClubs],
      aiHand = [fiveDiamonds], discardPile = [fiveHearts], turn = Ai,
      currentSuit = None, message = MsgAiThinking, isAiThinking = False,
      showSuitPicker = False\<rparr>"

definition exOver :: GameState where
  "exOver =
     \<lparr>status = GameOver, deck = [aceHearts], playerHand = [twoSpades, kingClubs],
      aiHand = [], discardPile = [fiveHearts, fiveDiamonds], turn = Player,
      currentSuit = None, message = MsgAiWins, isAiThinking = False,
      showSuitPicker = False\<rparr>"

text \<open>
  The deal of \<^verbatim>\<open>START_GAME\<close> under \<open>rnd0\<close> and \<open>now0\<close>. That shuffle moves the first
  card of the ordered deck, the Ace of hearts, to the end of the array, where the seed is
  taken from; the Ace goes to the bottom of the draw pile and the king of spades becomes
  the seed. \<open>exAfterDraw\<close> is the state after the player has then drawn a card.
\<close>

definition exDealt :: GameState where
  "exDealt =
     \<lparr>status = Playing, deck = aceHearts # map nthCard [17..<51],
      playerHand = map nthCard [1..<9], aiHand = map nthCard [9..<17],
      discardPile = [nthCard 51], turn = Player, currentSuit = None,
      message = MsgYourTurn, isAiThinking = False, showSuitPicker = False\<rparr>"

definition exAfterDraw :: GameState where
  "exAfterDraw =
     \<lparr>status = Playing, deck = aceHearts # map nthCard [17..<50],
      playerHand = map nthCard [1..<9] @ [nthCard 50], aiHand = map nthCard [9..<17],
      discardPile = [nthCard 51], turn = Ai, currentSuit = None,
      message = MsgPlayerDrew, isAiThinking = False, showSuitPicker = False\<rparr>"

lemmas example_states =
  exDeclared_def exAiTurn_def exAiAfterAce_def exAiStuck_def exAiLast_def exOver_def

section \<open>Move legality\<close>

lemma isValidMove_Ace: "rank c = Ace \<Longrightarrow> isValidMove (Some c) topCard cs"
  by simp

lemma isValidMove_Some:
  "isValidMove (Some c) (Some t) cs =
     (rank c = Ace \<or> suit c = (case cs of None \<Rightarrow> suit t | Some s \<Rightarrow> s) \<or> rank c = rank t)"
  by (simp add: Let_def)

declare isValidMove.simps [simp del]

text \<open>
  Claim C6, as amended. With a top card and a declared suit, \<open>isValidMove\<close> is true
  exactly when the card is an Ace, or its suit is the declared suit, or its rank is the
  top card's rank. The first alternative is missing from the claim.
\<close>

theorem isValidMove_declared_suit:
  "isValidMove (Some c) (Some t) (Some d) \<longleftrightarrow> rank c = Ace \<or> suit c = d \<or> rank c = rank t"
  by (simp add: isValidMove_Some)

text \<open>
  Claim C6 as stated fails for an Ace: the Ace of spades on the five of hearts with hearts
  declared is valid, although neither its suit nor its rank matches.
\<close>

theorem isValidMove_declared_suit_counterexample:
  "\<not> (isValidMove (Some aceSpades) (Some fiveHearts) (Some Hearts)
        \<longleftrightarrow> suit aceSpades = Hearts \<or> rank aceSpades = rank fiveHearts)"
  by (simp add: isValidMove_Some example_cards)

section \<open>The computer's move chooser\<close>

lemma find_Ace_valid: "find (\<lambda>c. rank c = Ace) hand = Some c \<Longrightarrow> c \<in> set hand \<and> rank c = Ace"
  by (auto simp: find_Some_iff)

lemma randIndex_less: "0 < n \<Longrightarrow> randIndex r n < n"
  by (simp add: randIndex_def)

lemma getAiMove_normal:
  assumes "filter (\<lambda>c. rank c \<noteq> Ace \<and> isValidMove (Some c) (Some t) cs) hand \<noteq> []"
  shows "\<exists>c. getAiMove r hand (Some t) cs = Some c
          \<and> c \<in> set (filter (\<lambda>c. rank c \<noteq> Ace \<and> isValidMove (Some c) (Some t) cs) hand)"
proof -
  let ?N = "filter (\<lambda>c. rank c \<noteq> Ace \<and> isValidMove (Some c) (Some t) cs) hand"
  from assms have ne: "hand \<noteq> []" by auto
  from assms have len: "0 < length ?N" by simp
  then have "?N ! randIndex r (length ?N) \<in> set ?N"
    using randIndex_less nth_mem by blast
  moreover have "getAiMove r hand (Some t) cs = Some (?N ! randIndex r (length ?N))"
    using ne len unfolding getAiMove_def Let_def by simp
  ultimately show ?thesis by blast
qed

lemma getAiMove_wild:
  assumes "filter (\<lambda>c. rank c \<noteq> Ace \<and> isValidMove (Some c) (Some t) cs) hand = []"
  shows "getAiMove r hand (Some t) cs = find (\<lambda>c. rank c = Ace) hand"
  using assms unfolding getAiMove_def Let_def by (cases hand) auto

lemma getAiMove_Some_valid:
  assumes "getAiMove r hand (Some t) cs = Some c"
  shows "c \<in> set hand \<and> isValidMove (Some c) (Some t) cs"
proof (cases "filter (\<lambda>c. rank c \<noteq> Ace \<and> isValidMove (Some c) (Some t) cs) hand = []")
  case True
  then have "find (\<lambda>c. rank c = Ace) hand = Some c"
    using assms by (simp add: getAiMove_wild)
  then show ?thesis
    using find_Ace_valid [of hand c] isValidMove_Ace [of c] by simp
next
  case False
  from getAiMove_normal [OF this, of r] assms show ?thesis by auto
qed

lemma getAiMove_None_iff:
  "getAiMove r hand (Some t) cs = None
     \<longleftrightarrow> (\<forall>c \<in> set hand. \<not> isValidMove (Some c) (Some t) cs)"
proof (cases "filter (\<lambda>c. rank c \<noteq> Ace \<and> isValidMove (Some c) (Some t) cs) hand = []")
  case True
  have "find (\<lambda>c. rank c = Ace) hand = None
          \<longleftrightarrow> (\<forall>c \<in> set hand. \<not> isValidMove (Some c) (Some t) cs)"
  proof
    assume "find (\<lambda>c. rank c = Ace) hand = None"
    then have "\<forall>c \<in> set hand. rank c \<noteq> Ace" by (simp add: find_None_iff)
    with True show "\<forall>c \<in> set hand. \<not> isValidMove (Some c) (Some t) cs"
      by (simp add: filter_empty_conv)
  next
    assume "\<forall>c \<in> set hand. \<not> isValidMove (Some c) (Some t) cs"
    then have "\<forall>c \<in> set hand. rank c \<noteq> Ace" using isValidMove_Ace by blast
    then show "find (\<lambda>c. rank c = Ace) hand = None" by (simp add: find_None_iff)
  qed
  then show ?thesis using True by (simp add: getAiMove_wild)
next
  case False
  from getAiMove_normal [OF this, of r] obtain c where
    "getAiMove r hand (Some t) cs = Some c" "c \<in> set hand" "isValidMove (Some c) (Some t) cs"
    by auto
  then show ?thesis by auto
qed

text \<open>
  Claim C7. Given a top card, \<open>getAiMove\<close> never returns a card that fails
  \<open>isValidMove\<close> against that top card and declared suit, and it returns \<^verbatim>\<open>null\<close>
  exactly when no card of the hand satisfies \<open>isValidMove\<close>. This holds for every hand
  (the empty one included), every declared suit (\<^verbatim>\<open>null\<close> included) and every random
  draw.
\<close>

theorem getAiMove_sound_and_complete:
  "(\<forall>c. getAiMove r hand (Some t) cs = Some c \<longrightarrow> isValidMove (Some c) (Some t) cs)
   \<and> (getAiMove r hand (Some t) cs = None
        \<longleftrightarrow> \<not> (\<exists>c \<in> set hand. isValidMove (Some c) (Some t) cs))"
  using getAiMove_Some_valid getAiMove_None_iff by blast

theorem getAiMove_sound_and_complete_witness:
  "getAiMove 0 [kingClubs, aceSpades] (Some fiveHearts) None = Some aceSpades
   \<and> isValidMove (Some aceSpades) (Some fiveHearts) None
   \<and> getAiMove 0 [kingClubs] (Some fiveHearts) None = None
   \<and> \<not> isValidMove (Some kingClubs) (Some fiveHearts) None"
proof -
  have played: "getAiMove 0 [kingClubs, aceSpades] (Some fiveHearts) None = Some aceSpades"
    by (simp add: getAiMove_def isValidMove_Some example_cards)
  have passed: "getAiMove 0 [kingClubs] (Some fiveHearts) None = None"
    by (simp add: getAiMove_def isValidMove_Some example_cards)
  from played passed
    getAiMove_sound_and_complete [of 0 "[kingClubs, aceSpades]" fiveHearts None]
    getAiMove_sound_and_complete [of 0 "[kingClubs]" fiveHearts None]
  show ?thesis by simp
qed

text \<open>
  Claim C8. Given a top card, the chooser follows the priority order: when some non-Ace
  card of the hand satisfies \<open>isValidMove\<close>, the returned card is one of those cards;
  otherwise, when the hand holds an Ace, an Ace of the hand is returned; otherwise the
  result is \<^verbatim>\<open>null\<close>.
\<close>

theorem getAiMove_priority:
  "(filter (\<lambda>c. rank c \<noteq> Ace \<and> isValidMove (Some c) (Some t) cs) hand \<noteq> [] \<longrightarrow>
      (\<exists>c. getAiMove r hand (Some t) cs = Some c
           \<and> c \<in> set (filter (\<lambda>c. rank c \<noteq> Ace \<and> isValidMove (Some c) (Some t) cs) hand)))
   \<and> (filter (\<lambda>c. rank c \<noteq> Ace \<and> isValidMove (Some c) (Some t) cs) hand = []
        \<and> (\<exists>c \<in> set hand. rank c = Ace) \<longrightarrow>
      (\<exists>c. getAiMove r hand (Some t) cs = Some c \<and> c \<in> set hand \<and> rank c = Ace))
   \<and> (filter (\<lambda>c. rank c \<noteq> Ace \<and> isValidMove (Some c) (Some t) cs) hand = []
        \<and> \<not> (\<exists>c \<in> set hand. rank c = Ace) \<longrightarrow>
      getAiMove r hand (Some t) cs = None)"
proof (intro conjI impI)
  assume "filter (\<lambda>c. rank c \<noteq> Ace \<and> isValidMove (Some c) (Some t) cs) hand \<noteq> []"
  then show "\<exists>c. getAiMove r hand (Some t) cs = Some c
           \<and> c \<in> set (filter (\<lambda>c. rank c \<noteq> Ace \<and> isValidMove (Some c) (Some t) cs) hand)"
    by (rule getAiMove_normal)
next
  assume a: "filter (\<lambda>c. rank c \<noteq> Ace \<and> isValidMove (Some c) (Some t) cs) hand = []
        \<and> (\<exists>c \<in> set hand. rank c = Ace)"
  then obtain c where "find (\<lambda>c. rank c = Ace) hand = Some c"
    by (cases "find (\<lambda>c. rank c = Ace) hand") (auto simp: find_None_iff)
  moreover from a have "getAiMove r hand (Some t) cs = find (\<lambda>c. rank c = Ace) hand"
    by (simp add: getAiMove_wild)
  ultimately show "\<exists>c. getAiMove r hand (Some t) cs = Some c \<and> c \<in> set hand \<and> rank c = Ace"
    using find_Ace_valid [of hand c] by simp
next
  assume a: "filter (\<lambda>c. rank c \<noteq> Ace \<and> isValidMove (Some c) (Some t) cs) hand = []
        \<and> \<not> (\<exists>c \<in> set hand. rank c = Ace)"
  then have "find (\<lambda>c. rank c = Ace) hand = None" by (simp add: find_None_iff)
  with a show "getAiMove r hand (Some t) cs = None" by (simp add: getAiMove_wild)
qed

theorem getAiMove_priority_witness:
  "getAiMove 1 [aceSpades, fiveDiamonds, twoSpades, kingClubs] (Some fiveHearts) (Some Spades)
     = Some twoSpades
   \<and> getAiMove 1 [kingClubs, aceSpades, aceHearts] (Some fiveHearts) (Some Diamonds)
     = Some aceSpades
   \<and> getAiMove 1 [kingClubs, twoSpades] (Some fiveHearts) None = None"
proof -
  have normal: "filter (\<lambda>c. rank c \<noteq> Ace \<and> isValidMove (Some c) (Some fiveHearts) (Some Spades))
                  [aceSpades, fiveDiamonds, twoSpades, kingClubs] = [fiveDiamonds, twoSpades]"
    by (simp add: isValidMove_Some example_cards)
  have wild: "filter (\<lambda>c. rank c \<noteq> Ace \<and> isValidMove (Some c) (Some fiveHearts) (Some Diamonds))
                  [kingClubs, aceSpades, aceHearts] = []"
    by (simp add: isValidMove_Some example_cards)
  have none: "filter (\<lambda>c. rank c \<noteq> Ace \<and> isValidMove (Some c) (Some fiveHearts) None)
                  [kingClubs, twoSpades] = []"
    by (simp add: isValidMove_Some example_cards)
  have e1: "getAiMove 1 [aceSpades, fiveDiamonds, twoSpades, kingClubs] (Some fiveHearts)
              (Some Spades) = Some twoSpades"
    by (simp add: getAiMove_def randIndex_def isValidMove_Some example_cards)
  have e2: "getAiMove 1 [kingClubs, aceSpades, aceHearts] (Some fiveHearts) (Some Diamonds)
              = Some aceSpades"
    by (simp add: getAiMove_def randIndex_def isValidMove_Some example_cards)
  from getAiMove_priority [of fiveHearts "Some Spades"
         "[aceSpades, fiveDiamonds, twoSpades, kingClubs]" 1]
       getAiMove_priority [of fiveHearts "Some Diamonds" "[kingClubs, aceSpades, aceHearts]" 1]
       getAiMove_priority [of fiveHearts None "[kingClubs, twoSpades]" 1]
       normal wild none e1 e2
  show ?thesis by (simp add: example_cards)
qed

section \<open>Plays, suit declaration and the declared suit\<close>

lemmas reducer_simps = gameReducer.simps Let_def

declare gameReducer.simps [simp del]

lemma getAiMove_no_top: "getAiMove r hand None cs = None"
  by (simp add: getAiMove_def)

lemma getAiMove_Some_legal:
  assumes "getAiMove r hand topCard cs = Some c"
  shows "c \<in> set hand \<and> isValidMove (Some c) topCard cs"
proof (cases topCard)
  case None
  with assms show ?thesis by (simp add: getAiMove_no_top)
next
  case (Some t)
  with assms getAiMove_Some_valid [of r hand t cs c] show ?thesis by simp
qed

text \<open>
  Claim C10. A play of a card that is not an Ace, by either participant, leaves
  \<open>currentSuit\<close> at \<^verbatim>\<open>null\<close>, whatever it was before; legality of the next play is
  then decided by the played card alone: its suit and its rank.
\<close>

theorem non_ace_play_clears_suit:
  assumes "rank c \<noteq> Ace"
  shows "\<exists>s1 s2. gameReducer rnd now s (PLAYER_PLAY c) = Some s1 \<and> currentSuit s1 = None
           \<and> gameReducer rnd now s (AI_PLAY c) = Some s2 \<and> currentSuit s2 = None
           \<and> (\<forall>d. isValidMove (Some d) (topCardOf s1) (currentSuit s1)
                  \<longleftrightarrow> rank d = Ace \<or> suit d = suit c \<or> rank d = rank c)
           \<and> (\<forall>d. isValidMove (Some d) (topCardOf s2) (currentSuit s2)
                  \<longleftrightarrow> rank d = Ace \<or> suit d = suit c \<or> rank d = rank c)"
  using assms by (simp add: reducer_simps topCardOf_def isValidMove_Some)

theorem non_ace_play_clears_suit_witness:
  "rank fiveDiamonds \<noteq> Ace
   \<and> currentSuit exDeclared = Some Diamonds
   \<and> map_option currentSuit (gameReducer rnd0 now0 exDeclared (PLAYER_PLAY fiveDiamonds))
       = Some None
   \<and> map_option currentSuit (gameReducer rnd0 now0 exDeclared (AI_PLAY fiveDiamonds))
       = Some None"
proof -
  have h: "rank fiveDiamonds \<noteq> Ace" by (simp add: example_cards)
  have d: "currentSuit exDeclared = Some Diamonds" by (simp add: example_states)
  from non_ace_play_clears_suit [OF h, of rnd0 now0 exDeclared] obtain s1 s2 where
    "gameReducer rnd0 now0 exDeclared (PLAYER_PLAY fiveDiamonds) = Some s1"
    "currentSuit s1 = None"
    "gameReducer rnd0 now0 exDeclared (AI_PLAY fiveDiamonds) = Some s2"
    "currentSuit s2 = None"
    by blast
  with h d show ?thesis by simp
qed

text \<open>
  Claim C4, as amended. When the player plays an Ace that does not empty the hand, the
  resulting state keeps the \<open>currentSuit\<close> it had (it is not cleared), has
  \<open>showSuitPicker\<close> set, and has the turn with the player.
\<close>

theorem player_ace_keeps_declared_suit:
  assumes "rank c = Ace" and "filter (\<lambda>h. card_id h \<noteq> card_id c) (playerHand s) \<noteq> []"
  shows "\<exists>s'. gameReducer rnd now s (PLAYER_PLAY c) = Some s'
           \<and> currentSuit s' = currentSuit s \<and> showSuitPicker s' \<and> turn s' = Player"
  using assms by (simp add: reducer_simps)

theorem player_ace_keeps_declared_suit_witness:
  "rank aceSpades = Ace
   \<and> filter (\<lambda>h. card_id h \<noteq> card_id aceSpades) (playerHand exDeclared) \<noteq> []
   \<and> map_option currentSuit (gameReducer rnd0 now0 exDeclared (PLAYER_PLAY aceSpades))
       = Some (Some Diamonds)
   \<and> map_option showSuitPicker (gameReducer rnd0 now0 exDeclared (PLAYER_PLAY aceSpades))
       = Some True
   \<and> map_option turn (gameReducer rnd0 now0 exDeclared (PLAYER_PLAY aceSpades))
       = Some Player"
proof -
  have h1: "rank aceSpades = Ace" by (simp add: example_cards)
  have h2: "filter (\<lambda>h. card_id h \<noteq> card_id aceSpades) (playerHand exDeclared) \<noteq> []"
    by (simp add: example_states example_cards showNat.simps)
  have h3: "currentSuit exDeclared = Some Diamonds" by (simp add: example_states)
  from player_ace_keeps_declared_suit [OF h1 h2, of rnd0 now0] obtain s' where
    "gameReducer rnd0 now0 exDeclared (PLAYER_PLAY aceSpades) = Some s'"
    "currentSuit s' = currentSuit exDeclared" "showSuitPicker s'" "turn s' = Player"
    by blast
  with h1 h2 h3 show ?thesis by simp
qed

text \<open>
  Claim C4 as stated fails: in a playing state where diamonds are declared, the player's
  Ace of spades, played from a hand of three, leaves diamonds declared.
\<close>

theorem player_ace_does_not_clear_suit:
  "status exDeclared = Playing \<and> rank aceSpades = Ace
   \<and> aceSpades \<in> set (playerHand exDeclared)
   \<and> map_option playerHand (gameReducer rnd0 now0 exDeclared (PLAYER_PLAY aceSpades))
       = Some [fiveDiamonds, twoSpades]
   \<and> map_option currentSuit (gameReducer rnd0 now0 exDeclared (PLAYER_PLAY aceSpades))
       \<noteq> Some None"
  by (simp add: example_states example_cards reducer_simps showNat.simps)

lemma SET_SUIT_result:
  "\<exists>s'. gameReducer rnd now s (SET_SUIT x) = Some s' \<and> currentSuit s' = Some x
        \<and> \<not> showSuitPicker s' \<and> turn s' = Ai"
  by (simp add: reducer_simps)

text \<open>
  Claim C3 fails on the computer's path. With the computer to move and an Ace its only
  legal play, its effect dispatches \<^verbatim>\<open>AI_PLAY\<close> of the Ace and then \<^verbatim>\<open>SET_SUIT\<close>;
  \<^verbatim>\<open>SET_SUIT\<close> writes \<^verbatim>\<open>turn: 'ai'\<close> over the \<^verbatim>\<open>turn: 'player'\<close> that \<^verbatim>\<open>AI_PLAY\<close>
  has just set. The resulting state has the turn with the computer, whose effect then
  runs again: the computer moves twice in a row.
\<close>

theorem ai_ace_keeps_turn:
  "aiEffectActions 0 0 exAiTurn
     = [SET_AI_THINKING True, AI_PLAY aceSpades, SET_SUIT Hearts, SET_AI_THINKING False]
   \<and> map_option turn (gameReducer rnd0 now0 exAiTurn (AI_PLAY aceSpades)) = Some Player
   \<and> aiEffect rnd0 now0 0 0 exAiTurn = Some exAiAfterAce
   \<and> turn exAiAfterAce = Ai
   \<and> aiEffectActions 0 0 exAiAfterAce
       = [SET_AI_THINKING True, DRAW Ai, SET_AI_THINKING False]"
  by (simp add: aiEffect_def aiEffectActions_def aiTimerActions_def getAiMove_def topCardOf_def
        isValidMove_Some randIndex_def SUITS_def reducer_simps example_states example_cards
        showNat.simps)

section \<open>Illegal intents and the terminal state\<close>

lemma aiEffect_idle:
  "\<not> (status s = Playing \<and> turn s = Ai \<and> \<not> isAiThinking s)
     \<Longrightarrow> aiEffect rnd now r1 r2 s = Some s"
  by (auto simp: aiEffect_def aiEffectActions_def)

lemma handlePlayerPlay_rejects:
  "status s \<noteq> Playing \<or> turn s \<noteq> Player \<or> isAiThinking s
     \<or> \<not> isValidMove (Some c) (topCardOf s) (currentSuit s)
   \<Longrightarrow> handlePlayerPlay rnd now s c = Some s"
  by (auto simp: handlePlayerPlay_def)

lemma aiEffect_play_legal:
  assumes "AI_PLAY c \<in> set (aiEffectActions r1 r2 s)"
  shows "status s = Playing \<and> turn s = Ai \<and> c \<in> set (aiHand s)
         \<and> isValidMove (Some c) (topCardOf s) (currentSuit s)"
proof -
  from assms have g: "status s = Playing" "turn s = Ai"
    by (auto simp: aiEffectActions_def split: if_splits)
  from assms g have "getAiMove r1 (aiHand s) (topCardOf s) (currentSuit s) = Some c"
    by (auto simp: aiEffectActions_def aiTimerActions_def split: if_splits option.splits)
  with g getAiMove_Some_legal show ?thesis by blast
qed

lemma aiEffect_skip_legal:
  assumes "SKIP_TURN who \<in> set (aiEffectActions r1 r2 s)"
  shows "who = Ai \<and> status s = Playing \<and> turn s = Ai \<and> deck s = []
         \<and> (discardPile s \<noteq> [] \<longrightarrow>
              (\<forall>h \<in> set (aiHand s). \<not> isValidMove (Some h) (topCardOf s) (currentSuit s)))"
proof -
  from assms have g: "status s = Playing" "turn s = Ai"
    by (auto simp: aiEffectActions_def split: if_splits)
  from assms g have n: "getAiMove r1 (aiHand s) (topCardOf s) (currentSuit s) = None"
    and d: "deck s = []" and w: "who = Ai"
    by (auto simp: aiEffectActions_def aiTimerActions_def split: if_splits option.splits)
  have "discardPile s \<noteq> [] \<longrightarrow>
          (\<forall>h \<in> set (aiHand s). \<not> isValidMove (Some h) (topCardOf s) (currentSuit s))"
  proof
    assume "discardPile s \<noteq> []"
    then have "topCardOf s = Some (last (discardPile s))" by (simp add: topCardOf_def)
    with n show "\<forall>h \<in> set (aiHand s). \<not> isValidMove (Some h) (topCardOf s) (currentSuit s)"
      by (simp add: getAiMove_None_iff)
  qed
  with g d w show ?thesis by simp
qed

text \<open>
  Claim C1, as amended. The reducer itself returns the unchanged snapshot only for a draw
  from an empty pile. Illegal plays and skips are kept away from it by the dispatching
  layer: \<open>handlePlayerPlay\<close> returns the unchanged snapshot for a play outside a playing
  game, out of turn, while the computer is thinking, or of a card failing \<open>isValidMove\<close>;
  the computer's effect dispatches \<^verbatim>\<open>AI_PLAY\<close> only on its own turn in a playing game,
  with a card of its hand that satisfies \<open>isValidMove\<close>, and \<^verbatim>\<open>SKIP_TURN\<close> only on its
  own turn when the draw pile is empty and (given a top card) no card of its hand
  satisfies \<open>isValidMove\<close>.
\<close>

theorem illegal_intents_rejected:
  "(deck s = [] \<longrightarrow> gameReducer rnd now s (DRAW who) = Some s)
   \<and> (status s \<noteq> Playing \<or> turn s \<noteq> Player \<or> isAiThinking s
        \<or> \<not> isValidMove (Some c) (topCardOf s) (currentSuit s)
      \<longrightarrow> handlePlayerPlay rnd now s c = Some s)
   \<and> (AI_PLAY c \<in> set (aiEffectActions r1 r2 s)
      \<longrightarrow> status s = Playing \<and> turn s = Ai \<and> c \<in> set (aiHand s)
          \<and> isValidMove (Some c) (topCardOf s) (currentSuit s))
   \<and> (SKIP_TURN who \<in> set (aiEffectActions r1 r2 s)
      \<longrightarrow> who = Ai \<and> status s = Playing \<and> turn s = Ai \<and> deck s = []
          \<and> (discardPile s \<noteq> [] \<longrightarrow>
               (\<forall>h \<in> set (aiHand s). \<not> isValidMove (Some h) (topCardOf s) (currentSuit s))))"
  using handlePlayerPlay_rejects [of s c rnd now] aiEffect_play_legal [of c r1 r2 s]
    aiEffect_skip_legal [of who r1 r2 s]
  by (simp add: reducer_simps)

theorem illegal_intents_rejected_witness:
  "deck exAiStuck = [] \<and> gameReducer rnd0 now0 exAiStuck (DRAW Ai) = Some exAiStuck
   \<and> turn exAiTurn \<noteq> Player
   \<and> handlePlayerPlay rnd0 now0 exAiTurn fiveDiamonds = Some exAiTurn
   \<and> \<not> isValidMove (Some twoSpades) (topCardOf exDeclared) (currentSuit exDeclared)
   \<and> handlePlayerPlay rnd0 now0 exDeclared twoSpades = Some exDeclared
   \<and> AI_PLAY aceSpades \<in> set (aiEffectActions 0 0 exAiTurn)
   \<and> isValidMove (Some aceSpades) (topCardOf exAiTurn) (currentSuit exAiTurn)
   \<and> SKIP_TURN Ai \<in> set (aiEffectActions 0 0 exAiStuck)
   \<and> discardPile exAiStuck \<noteq> []
   \<and> \<not> isValidMove (Some kingClubs) (topCardOf exAiStuck) (currentSuit exAiStuck)"
proof -
  have h1: "deck exAiStuck = []" by (simp add: example_states)
  have h2: "turn exAiTurn \<noteq> Player" by (simp add: example_states)
  have h3: "\<not> isValidMove (Some twoSpades) (topCardOf exDeclared) (currentSuit exDeclared)"
    by (simp add: example_states example_cards topCardOf_def isValidMove_Some)
  have h4: "AI_PLAY aceSpades \<in> set (aiEffectActions 0 0 exAiTurn)"
    by (simp add: aiEffectActions_def aiTimerActions_def getAiMove_def topCardOf_def
          isValidMove_Some example_states example_cards)
  have h5: "SKIP_TURN Ai \<in> set (aiEffectActions 0 0 exAiStuck)"
    by (simp add: aiEffectActions_def aiTimerActions_def getAiMove_def topCardOf_def
          isValidMove_Some example_states example_cards)
  have h6: "discardPile exAiStuck \<noteq> [] \<and> kingClubs \<in> set (aiHand exAiStuck)"
    by (simp add: example_states)
  from h1 h2 h3 h4 h5 h6
    illegal_intents_rejected [of exAiStuck rnd0 now0 Ai aceSpades 0 0]
    illegal_intents_rejected [of exAiTurn rnd0 now0 Ai fiveDiamonds 0 0]
    illegal_intents_rejected [of exDeclared rnd0 now0 Ai twoSpades 0 0]
    illegal_intents_rejected [of exAiTurn rnd0 now0 Ai aceSpades 0 0]
  show ?thesis by simp
qed

text \<open>
  Claim C1 as stated fails for the reducer: with the turn the computer's, the reducer
  applies the player's play of the five of diamonds and returns a changed snapshot.
\<close>

theorem reducer_applies_out_of_turn_play:
  "turn exAiTurn = Ai
   \<and> gameReducer rnd0 now0 exAiTurn (PLAYER_PLAY fiveDiamonds) \<noteq> Some exAiTurn
   \<and> map_option playerHand (gameReducer rnd0 now0 exAiTurn (PLAYER_PLAY fiveDiamonds))
       = Some [twoSpades]
   \<and> map_option discardPile (gameReducer rnd0 now0 exAiTurn (PLAYER_PLAY fiveDiamonds))
       = Some [fiveHearts, fiveDiamonds]"
  by (simp add: example_states example_cards reducer_simps showNat.simps)

text \<open>
  Claim C5, as amended. In a state whose status is game over, a play submitted through
  \<open>handlePlayerPlay\<close> and a run of the computer's effect return the unchanged snapshot,
  and \<^verbatim>\<open>SKIP_TURN\<close> changes neither hand.
\<close>

theorem game_over_frozen_for_handlers:
  assumes "status s = GameOver"
  shows "handlePlayerPlay rnd now s c = Some s \<and> aiEffect rnd now r1 r2 s = Some s
         \<and> (\<exists>s'. gameReducer rnd now s (SKIP_TURN who) = Some s'
                \<and> playerHand s' = playerHand s \<and> aiHand s' = aiHand s)"
  using assms handlePlayerPlay_rejects [of s c rnd now] aiEffect_idle [of s rnd now r1 r2]
  by (simp add: reducer_simps)

theorem game_over_frozen_for_handlers_witness:
  "status exOver = GameOver
   \<and> handlePlayerPlay rnd0 now0 exOver twoSpades = Some exOver
   \<and> aiEffect rnd0 now0 0 0 exOver = Some exOver
   \<and> map_option playerHand (gameReducer rnd0 now0 exOver (SKIP_TURN Player))
       = Some (playerHand exOver)
   \<and> map_option aiHand (gameReducer rnd0 now0 exOver (SKIP_TURN Player))
       = Some (aiHand exOver)"
proof -
  have h: "status exOver = GameOver" by (simp add: example_states)
  from game_over_frozen_for_handlers [OF h, of rnd0 now0 twoSpades 0 0 Player] obtain s' where
    "handlePlayerPlay rnd0 now0 exOver twoSpades = Some exOver"
    "aiEffect rnd0 now0 0 0 exOver = Some exOver"
    "gameReducer rnd0 now0 exOver (SKIP_TURN Player) = Some s'"
    "playerHand s' = playerHand exOver" "aiHand s' = aiHand exOver"
    by blast
  with h show ?thesis by simp
qed

text \<open>
  Claim C5 as stated fails for the reducer: after the computer has played its last card
  the status is game over, and the reducer still applies a draw and a play, each of
  which changes the player's hand.
\<close>

theorem reducer_changes_hand_after_game_over:
  "gameReducer rnd0 now0 exAiLast (AI_PLAY fiveDiamonds) = Some exOver
   \<and> status exOver = GameOver \<and> aiHand exOver = []
   \<and> playerHand exOver = [twoSpades, kingClubs]
   \<and> map_option playerHand (gameReducer rnd0 now0 exOver (DRAW Player))
       = Some [twoSpades, kingClubs, aceHearts]
   \<and> map_option playerHand (gameReducer rnd0 now0 exOver (PLAYER_PLAY twoSpades))
       = Some [kingClubs]"
  by (simp add: example_states example_cards reducer_simps showNat.simps)

section \<open>The created deck\<close>

lemma orderedDeck_length: "length (orderedDeck now) = 52"
  by (simp add: orderedDeck_def pushSuit_def pushRank_def SUITS_def RANKS_def)

lemma orderedDeck_aces: "length (filter (\<lambda>c. rank c = Ace) (orderedDeck now)) = 4"
  by (simp add: orderedDeck_def pushSuit_def pushRank_def SUITS_def RANKS_def mkCard_def)

lemma orderedDeck_suitRank: "map suitRank (orderedDeck now) = List.product SUITS RANKS"
  by (simp add: orderedDeck_def pushSuit_def pushRank_def SUITS_def RANKS_def mkCard_def
        suitRank_def)

text \<open>
  The identifiers differ within their first four characters (rank, dash and the start of
  the suit), whatever the clock reads.
\<close>

lemma orderedDeck_id_prefixes: "distinct (map (take 4 \<circ> card_id) (orderedDeck now))"
  by (simp add: orderedDeck_def pushSuit_def pushRank_def SUITS_def RANKS_def mkCard_def)

lemma orderedDeck_distinct_ids: "distinct (map card_id (orderedDeck now))"
proof -
  have "distinct (map (take 4) (map card_id (orderedDeck now)))"
    using orderedDeck_id_prefixes [of now] by simp
  then show ?thesis
    using distinct_map [of "take 4" "map card_id (orderedDeck now)"] by blast
qed

lemma length_swap [simp]: "length (swap i j xs) = length xs"
  by (simp add: swap_def Let_def)

lemma mset_swap_list: "i < length xs \<Longrightarrow> j < length xs \<Longrightarrow> mset (swap i j xs) = mset xs"
  by (simp add: swap_def Let_def mset_swap)

lemma mset_shuffleLoop: "i < length xs \<Longrightarrow> mset (shuffleLoop rnd i xs) = mset xs"
proof (induction i arbitrary: xs)
  case 0
  then show ?case by simp
next
  case (Suc i)
  have j: "randIndex (rnd (Suc i)) (Suc i + 1) < length xs"
    using Suc.prems randIndex_less [of "Suc i + 1" "rnd (Suc i)"] by simp
  have "mset (shuffleLoop rnd i (swap (Suc i) (randIndex (rnd (Suc i)) (Suc i + 1)) xs))
          = mset (swap (Suc i) (randIndex (rnd (Suc i)) (Suc i + 1)) xs)"
    using Suc.prems by (intro Suc.IH) simp
  also have "\<dots> = mset xs" using Suc.prems j by (rule mset_swap_list)
  finally show ?case by simp
qed

lemma mset_shuffle: "mset (shuffle rnd xs) = mset xs"
proof (cases xs)
  case Nil
  then show ?thesis by (simp add: shuffle_def)
next
  case (Cons x ys)
  then show ?thesis by (simp add: shuffle_def mset_shuffleLoop)
qed

lemma mset_createDeck: "mset (createDeck rnd now) = mset (orderedDeck now)"
  by (simp add: createDeck_def mset_shuffle)

lemma createDeck_length: "length (createDeck rnd now) = 52"
  using mset_createDeck [of rnd now] orderedDeck_length [of now] by (metis size_mset)

lemma createDeck_aces: "length (filter (\<lambda>c. rank c = Ace) (createDeck rnd now)) = 4"
proof -
  have "mset (filter (\<lambda>c. rank c = Ace) (createDeck rnd now))
          = mset (filter (\<lambda>c. rank c = Ace) (orderedDeck now))"
    by (simp add: mset_createDeck)
  then have "length (filter (\<lambda>c. rank c = Ace) (createDeck rnd now))
          = length (filter (\<lambda>c. rank c = Ace) (orderedDeck now))"
    by (metis size_mset)
  then show ?thesis by (simp add: orderedDeck_aces)
qed

section \<open>The deal\<close>

text \<open>
  The seed loop on an array that ends in a card \<open>x\<close> that is not an Ace followed by Aces
  only: it returns, the seed is \<open>x\<close>, and the Aces stand at the front of the array (the
  bottom of the draw pile), in the order they had.
\<close>

lemma seedLoop_rotate:
  assumes "\<forall>a \<in> set as. rank a = Ace" and "rank x \<noteq> Ace"
  shows "seedLoop (butlast (pre @ x # as)) (last (pre @ x # as)) = Some (as @ pre, x)"
  using assms(1)
proof (induction as arbitrary: pre rule: rev_induct)
  case Nil
  show ?case using assms(2) by (simp add: seedLoop.simps butlast_append)
next
  case (snoc a as)
  have ace: "rank a = Ace" using snoc.prems by simp
  have "seedLoop (butlast (pre @ x # as @ [a])) (last (pre @ x # as @ [a]))
          = seedLoop (pre @ x # as) a"
    by (simp add: butlast_append)
  also have "\<dots> = seedLoop (butlast (a # pre @ x # as)) (last (a # pre @ x # as))"
    using ace by (subst seedLoop.simps) simp
  also have "\<dots> = seedLoop (butlast ((a # pre) @ x # as)) (last ((a # pre) @ x # as))"
    by simp
  also have "\<dots> = Some (as @ a # pre, x)"
    using snoc.prems by (intro snoc.IH) simp
  finally show ?case by simp
qed

lemma dealGame_rotate:
  assumes "drop 16 created = pre @ x # as" and "\<forall>a \<in> set as. rank a = Ace"
    and "rank x \<noteq> Ace"
  shows "dealGame created =
           Some (initialState\<lparr>status := Playing, deck := as @ pre,
                   playerHand := take 8 created, aiHand := take 8 (drop 8 created),
                   discardPile := [x], message := MsgYourTurn\<rparr>)"
proof -
  have d: "drop 8 (drop 8 created) = pre @ x # as" using assms(1) by simp
  have p: "pop (pre @ x # as) = Some (last (pre @ x # as), butlast (pre @ x # as))"
    by (simp add: pop_def)
  have r: "seedLoop (butlast (pre @ x # as)) (last (pre @ x # as)) = Some (as @ pre, x)"
    by (rule seedLoop_rotate [OF assms(2,3)])
  show ?thesis
    unfolding dealGame_def Let_def d p
    by (simp only: option.case prod.case r)
qed

text \<open>Thirty-six cards are left after the two hands, and only four cards are Aces.\<close>

lemma non_ace_remains:
  assumes "length created = 52" and "length (filter (\<lambda>c. rank c = Ace) created) = 4"
  shows "\<exists>x \<in> set (drop 16 created). rank x \<noteq> Ace"
proof (rule ccontr)
  assume "\<not> (\<exists>x \<in> set (drop 16 created). rank x \<noteq> Ace)"
  then have "filter (\<lambda>c. rank c = Ace) (drop 16 created) = drop 16 created"
    by (simp add: filter_id_conv)
  then have "length (filter (\<lambda>c. rank c = Ace) (drop 16 created)) = 36"
    using assms(1) by simp
  moreover have "length (filter (\<lambda>c. rank c = Ace) created)
      = length (filter (\<lambda>c. rank c = Ace) (take 16 created))
        + length (filter (\<lambda>c. rank c = Ace) (drop 16 created))"
    by (metis append_take_drop_id filter_append length_append)
  ultimately show False using assms(2) by simp
qed

lemma createDeck_split:
  "\<exists>pre x as. drop 16 (createDeck rnd now) = pre @ x # as
      \<and> rank x \<noteq> Ace \<and> (\<forall>a \<in> set as. rank a = Ace)"
proof -
  from non_ace_remains [OF createDeck_length createDeck_aces]
  have "\<exists>x \<in> set (drop 16 (createDeck rnd now)). rank x \<noteq> Ace" .
  from split_list_last_prop [OF this] show ?thesis by auto
qed

lemma START_GAME_result:
  "\<exists>pre x as.
      drop 16 (createDeck rnd now) = pre @ x # as
      \<and> rank x \<noteq> Ace \<and> (\<forall>a \<in> set as. rank a = Ace)
      \<and> gameReducer rnd now s START_GAME =
          Some (initialState\<lparr>status := Playing, deck := as @ pre,
                  playerHand := take 8 (createDeck rnd now),
                  aiHand := take 8 (drop 8 (createDeck rnd now)), discardPile := [x],
                  message := MsgYourTurn\<rparr>)"
proof -
  from createDeck_split [of rnd now] obtain pre x as where
    split: "drop 16 (createDeck rnd now) = pre @ x # as"
    and x: "rank x \<noteq> Ace" and as: "\<forall>a \<in> set as. rank a = Ace"
    by blast
  then show ?thesis
    using dealGame_rotate [OF split as x] by (auto simp: reducer_simps)
qed

lemma example_deal: "gameReducer rnd0 now0 initialState START_GAME = Some exDealt"
  by code_simp

lemma example_draw: "gameReducer rnd0 now0 exDealt (DRAW Player) = Some exAfterDraw"
  by code_simp

text \<open>
  Claim C9. For every shuffle (every sequence of random draws) and every clock, and from
  every state, \<^verbatim>\<open>START_GAME\<close> returns a state: a playing game with the turn the
  player's, a draw pile of 35 cards, two hands of 8 cards and a discard pile of one card
  that is not an Ace. The seed is the last card of the 36 left after the hands that is
  not an Ace; the Aces that lay after it (those drawn as seed before it) stand at the
  front of the draw pile, its bottom, in front of the cards that lay before the seed.
\<close>

theorem START_GAME_deal:
  "\<exists>s' pre x as.
      gameReducer rnd now s START_GAME = Some s'
      \<and> status s' = Playing \<and> turn s' = Player
      \<and> length (deck s') = 35 \<and> length (playerHand s') = 8 \<and> length (aiHand s') = 8
      \<and> discardPile s' = [x] \<and> rank x \<noteq> Ace
      \<and> drop 16 (createDeck rnd now) = pre @ x # as \<and> (\<forall>a \<in> set as. rank a = Ace)
      \<and> deck s' = as @ pre"
proof -
  let ?created = "createDeck rnd now"
  from START_GAME_result [of rnd now s] obtain pre x as where
    split: "drop 16 ?created = pre @ x # as"
    and x: "rank x \<noteq> Ace" and as: "\<forall>a \<in> set as. rank a = Ace"
    and result: "gameReducer rnd now s START_GAME =
          Some (initialState\<lparr>status := Playing, deck := as @ pre,
                  playerHand := take 8 ?created, aiHand := take 8 (drop 8 ?created),
                  discardPile := [x], message := MsgYourTurn\<rparr>)"
    by blast
  let ?s' = "initialState\<lparr>status := Playing, deck := as @ pre,
                 playerHand := take 8 ?created, aiHand := take 8 (drop 8 ?created),
                 discardPile := [x], message := MsgYourTurn\<rparr>"
  have "length (drop 16 ?created) = 36" by (simp add: createDeck_length)
  with split have len: "length (as @ pre) = 35" by simp
  have "status ?s' = Playing \<and> turn ?s' = Player" by (simp add: initialState_def)
  moreover have "length (deck ?s') = 35" using len by simp
  moreover have "length (playerHand ?s') = 8 \<and> length (aiHand ?s') = 8"
    by (simp add: createDeck_length)
  moreover have "discardPile ?s' = [x] \<and> deck ?s' = as @ pre" by simp
  ultimately show ?thesis using result split x as by blast
qed

theorem START_GAME_deal_witness:
  "gameReducer rnd0 now0 initialState START_GAME = Some exDealt
   \<and> last (createDeck rnd0 now0) = aceHearts \<and> rank aceHearts = Ace
   \<and> hd (deck exDealt) = aceHearts
   \<and> length (deck exDealt) = 35 \<and> length (playerHand exDealt) = 8
   \<and> length (aiHand exDealt) = 8
   \<and> discardPile exDealt = [nthCard 51] \<and> rank (nthCard 51) \<noteq> Ace"
proof -
  from START_GAME_deal [of rnd0 now0 initialState] example_deal obtain x where
    "length (deck exDealt) = 35" "length (playerHand exDealt) = 8"
    "length (aiHand exDealt) = 8" "discardPile exDealt = [x]" "rank x \<noteq> Ace"
    by auto
  moreover have "discardPile exDealt = [nthCard 51] \<and> hd (deck exDealt) = aceHearts"
    by (simp add: exDealt_def)
  moreover have "last (createDeck rnd0 now0) = aceHearts" by code_simp
  moreover have "rank aceHearts = Ace" by (simp add: example_cards)
  ultimately show ?thesis using example_deal by simp
qed

section \<open>Card conservation\<close>

lemma fullDeck_mset:
  assumes "mset (zones s') = mset (zones s)" and "fullDeck s"
  shows "fullDeck s'"
proof -
  from assms(1) have i: "mset (map card_id (zones s')) = mset (map card_id (zones s))"
    and p: "mset (map suitRank (zones s')) = mset (map suitRank (zones s))"
    by (metis mset_map)+
  from i have "distinct (map card_id (zones s')) = distinct (map card_id (zones s))"
    by (rule mset_eq_imp_distinct_iff)
  with p assms(2) show ?thesis by (simp add: fullDeck_def)
qed

lemma fullDeck_orderedDeck:
  assumes "mset (zones s) = mset (orderedDeck now)"
  shows "fullDeck s"
proof -
  from assms have i: "mset (map card_id (zones s)) = mset (map card_id (orderedDeck now))"
    and p: "mset (map suitRank (zones s)) = mset (map suitRank (orderedDeck now))"
    by (metis mset_map)+
  from i have "distinct (map card_id (zones s)) = distinct (map card_id (orderedDeck now))"
    by (rule mset_eq_imp_distinct_iff)
  with p show ?thesis
    by (simp add: fullDeck_def orderedDeck_distinct_ids orderedDeck_suitRank)
qed

lemma fullDeck_start:
  assumes "gameReducer rnd now s START_GAME = Some s'"
  shows "status s' = Playing \<and> fullDeck s'"
proof -
  let ?created = "createDeck rnd now"
  from START_GAME_result [of rnd now s] assms obtain pre x as where
    split: "drop 16 ?created = pre @ x # as"
    and s': "s' = initialState\<lparr>status := Playing, deck := as @ pre,
                  playerHand := take 8 ?created, aiHand := take 8 (drop 8 ?created),
                  discardPile := [x], message := MsgYourTurn\<rparr>"
    by auto
  have "drop 8 ?created = take 8 (drop 8 ?created) @ pre @ x # as"
    using append_take_drop_id [of 8 "drop 8 ?created"] split by simp
  then have "?created = take 8 ?created @ take 8 (drop 8 ?created) @ pre @ x # as"
    using append_take_drop_id [of 8 ?created] by simp
  then have "mset ?created
               = mset (take 8 ?created @ take 8 (drop 8 ?created) @ pre @ x # as)"
    by simp
  then have "mset (zones s') = mset ?created"
    by (simp add: s' zones_def)
  then have "mset (zones s') = mset (orderedDeck now)" by (simp add: mset_createDeck)
  then have "fullDeck s'" by (rule fullDeck_orderedDeck)
  then show ?thesis by (simp add: s')
qed

text \<open>
  The filter of a play removes exactly the played card when the card is in the hand and
  the identifiers of the hand are distinct.
\<close>

lemma filter_played_card:
  fixes hand :: "CardData list"
  assumes "distinct (map card_id hand)" and "c \<in> set hand"
  shows "mset (filter (\<lambda>h. card_id h \<noteq> card_id c) hand) + {#c#} = mset hand"
  using assms
proof (induction hand)
  case Nil
  then show ?case by simp
next
  case (Cons h hand)
  show ?case
  proof (cases "h = c")
    case True
    with Cons.prems have "card_id c \<notin> card_id ` set hand" by simp
    then have "\<forall>k \<in> set hand. card_id k \<noteq> card_id c" by (metis imageI)
    then have "filter (\<lambda>h. card_id h \<noteq> card_id c) hand = hand" by (simp add: filter_id_conv)
    with True show ?thesis by simp
  next
    case False
    with Cons.prems have "c \<in> set hand" by simp
    with Cons.prems have "card_id h \<noteq> card_id c" by auto
    moreover have "mset (filter (\<lambda>h. card_id h \<noteq> card_id c) hand) + {#c#} = mset hand"
      using Cons.IH Cons.prems \<open>c \<in> set hand\<close> by simp
    ultimately show ?thesis by simp
  qed
qed

lemma step_zones:
  assumes "gameReducer rnd now s a = Some s'" and "playsHeldCard s a"
    and "distinct (map card_id (zones s))" and "status s = Menu \<longrightarrow> zones s = []"
    and "a \<noteq> START_GAME" and "a \<noteq> SET_MENU"
  shows "mset (zones s') = mset (zones s) \<and> (status s' = Menu \<longleftrightarrow> status s = Menu)"
proof (cases a)
  case (PLAYER_PLAY c)
  with assms have held: "c \<in> set (playerHand s)" by simp
  from assms(3) have "distinct (map card_id (playerHand s))" by (simp add: zones_def)
  from filter_played_card [OF this held] have played:
    "mset (filter (\<lambda>h. card_id h \<noteq> card_id c) (playerHand s)) + {#c#} = mset (playerHand s)" .
  from held assms(4) have playing: "status s \<noteq> Menu" by (auto simp: zones_def)
  from assms(1) PLAYER_PLAY have f:
    "playerHand s' = filter (\<lambda>h. card_id h \<noteq> card_id c) (playerHand s)"
    "discardPile s' = discardPile s @ [c]" "deck s' = deck s" "aiHand s' = aiHand s"
    "status s' = (if filter (\<lambda>h. card_id h \<noteq> card_id c) (playerHand s) = []
                  then GameOver else status s)"
    by (auto simp: reducer_simps)
  have "mset (zones s') = mset (deck s)
          + (mset (filter (\<lambda>h. card_id h \<noteq> card_id c) (playerHand s)) + {#c#})
          + mset (aiHand s) + mset (discardPile s)"
    unfolding zones_def f by (simp del: mset_filter)
  also have "\<dots> = mset (zones s)"
    unfolding played zones_def by simp
  finally have "mset (zones s') = mset (zones s)" .
  moreover from f(5) playing have "status s' = Menu \<longleftrightarrow> status s = Menu" by simp
  ultimately show ?thesis by simp
next
  case (AI_PLAY c)
  with assms have held: "c \<in> set (aiHand s)" by simp
  from assms(3) have "distinct (map card_id (aiHand s))" by (simp add: zones_def)
  from filter_played_card [OF this held] have played:
    "mset (filter (\<lambda>h. card_id h \<noteq> card_id c) (aiHand s)) + {#c#} = mset (aiHand s)" .
  from held assms(4) have playing: "status s \<noteq> Menu" by (auto simp: zones_def)
  from assms(1) AI_PLAY have f:
    "aiHand s' = filter (\<lambda>h. card_id h \<noteq> card_id c) (aiHand s)"
    "discardPile s' = discardPile s @ [c]" "deck s' = deck s" "playerHand s' = playerHand s"
    "status s' = (if filter (\<lambda>h. card_id h \<noteq> card_id c) (aiHand s) = []
                  then GameOver else status s)"
    by (auto simp: reducer_simps)
  have "mset (zones s') = mset (deck s) + mset (playerHand s)
          + (mset (filter (\<lambda>h. card_id h \<noteq> card_id c) (aiHand s)) + {#c#})
          + mset (discardPile s)"
    unfolding zones_def f by (simp del: mset_filter)
  also have "\<dots> = mset (zones s)"
    unfolding played zones_def by simp
  finally have "mset (zones s') = mset (zones s)" .
  moreover from f(5) playing have "status s' = Menu \<longleftrightarrow> status s = Menu" by simp
  ultimately show ?thesis by simp
next
  case (DRAW who)
  show ?thesis
  proof (cases "deck s = []")
    case True
    with assms(1) DRAW show ?thesis by (simp add: reducer_simps)
  next
    case False
    then have "mset (butlast (deck s) @ [last (deck s)]) = mset (deck s)"
      by simp
    then have "mset (butlast (deck s)) + {#last (deck s)#} = mset (deck s)"
      by simp
    with False assms(1) DRAW show ?thesis
      by (auto simp: reducer_simps zones_def split: if_splits)
  qed
next
  case (SET_SUIT x)
  with assms(1) show ?thesis by (auto simp: reducer_simps zones_def)
next
  case (SET_AI_THINKING v)
  with assms(1) show ?thesis by (auto simp: reducer_simps zones_def)
next
  case (SKIP_TURN who)
  with assms(1) show ?thesis by (auto simp: reducer_simps zones_def)
next
  case START_GAME
  with assms show ?thesis by simp
next
  case SET_MENU
  with assms show ?thesis by simp
qed

lemma gameInv_step:
  assumes "gameInv s" and "playsHeldCard s a" and "gameReducer rnd now s a = Some s'"
  shows "gameInv s'"
proof (cases "a = START_GAME \<or> a = SET_MENU")
  case True
  then show ?thesis
  proof
    assume "a = START_GAME"
    with assms(3) fullDeck_start show ?thesis by (auto simp: gameInv_def)
  next
    assume "a = SET_MENU"
    with assms(3) show ?thesis
      by (auto simp: gameInv_def reducer_simps zones_def initialState_def)
  qed
next
  case False
  from assms(1) have d: "distinct (map card_id (zones s))"
    and m: "status s = Menu \<longrightarrow> zones s = []"
    by (auto simp: gameInv_def fullDeck_def)
  from step_zones [OF assms(3,2) d m] False
  have z: "mset (zones s') = mset (zones s)" and st: "status s' = Menu \<longleftrightarrow> status s = Menu"
    by auto
  show ?thesis
  proof (cases "status s = Menu")
    case True
    with assms(1) have "zones s = []" by (simp add: gameInv_def)
    with z have "zones s' = []" by simp
    with True st show ?thesis by (simp add: gameInv_def)
  next
    case False
    with assms(1) have "fullDeck s" by (simp add: gameInv_def)
    with z have "fullDeck s'" by (rule fullDeck_mset)
    with False st show ?thesis by (simp add: gameInv_def)
  qed
qed

lemma reachable_gameInv: "reachable s \<Longrightarrow> gameInv s"
proof (induction rule: reachable.induct)
  case (start rnd now state state')
  then show ?case using fullDeck_start by (auto simp: gameInv_def)
next
  case (step state a rnd now state')
  then show ?case using gameInv_step by blast
qed

text \<open>
  The dispatching layer stays within the reachable states: the computer's effect plays a
  card that \<open>getAiMove\<close> took from the computer's hand, and \<open>handlePlayerPlay\<close> is
  called with a card of the player's hand.
\<close>

lemma dispatchAll_reachable:
  "reachable s \<Longrightarrow> heldThroughout rnd now s as \<Longrightarrow> dispatchAll rnd now s as = Some s'
     \<Longrightarrow> reachable s'"
proof (induction as arbitrary: s)
  case Nil
  then show ?case by simp
next
  case (Cons a as)
  from Cons.prems(3) obtain s1 where
    s1: "gameReducer rnd now s a = Some s1" and rest: "dispatchAll rnd now s1 as = Some s'"
    by (auto split: option.splits)
  from Cons.prems(2) s1 have held: "playsHeldCard s a" and h1: "heldThroughout rnd now s1 as"
    by simp_all
  from Cons.prems(1) held s1 have "reachable s1" by (rule reachable.step)
  from Cons.IH [OF this h1 rest] show ?case .
qed

lemma aiEffect_held: "heldThroughout rnd now s (aiEffectActions r1 r2 s)"
proof (cases "getAiMove r1 (aiHand s) (topCardOf s) (currentSuit s)")
  case None
  then show ?thesis
    by (simp add: aiEffectActions_def aiTimerActions_def reducer_simps)
next
  case (Some move)
  then have "move \<in> set (aiHand s)" using getAiMove_Some_legal by blast
  with Some show ?thesis
    by (simp add: aiEffectActions_def aiTimerActions_def reducer_simps)
qed

lemma aiEffect_reachable:
  "reachable s \<Longrightarrow> aiEffect rnd now r1 r2 s = Some s' \<Longrightarrow> reachable s'"
  unfolding aiEffect_def
  using aiEffect_held [of rnd now s r1 r2] dispatchAll_reachable by blast

lemma handlePlayerPlay_reachable:
  assumes "reachable s" and "c \<in> set (playerHand s)"
    and "handlePlayerPlay rnd now s c = Some s'"
  shows "reachable s'"
proof (cases "s' = s")
  case True
  with assms(1) show ?thesis by simp
next
  case False
  with assms(3) have "gameReducer rnd now s (PLAYER_PLAY c) = Some s'"
    by (auto simp: handlePlayerPlay_def split: if_splits)
  moreover from assms(2) have "playsHeldCard s (PLAYER_PLAY c)" by simp
  ultimately show ?thesis using assms(1) reachable.step by blast
qed

text \<open>
  Claim C2, as amended. In every state reached from a fresh start by transitions whose
  play intents carry a card held in the hand they are played from, and as long as the
  game has not been left for the menu, the four zones hold 52 cards, no card identifier
  occurs twice in them, and every pair of a suit and a rank occurs exactly once.
\<close>

theorem reachable_full_deck:
  assumes "reachable s" and "status s \<noteq> Menu"
  shows "zoneCount s = 52
         \<and> distinct (map card_id (zones s))
         \<and> mset (map suitRank (zones s)) = mset (List.product SUITS RANKS)"
proof -
  from assms reachable_gameInv have f: "fullDeck s" by (auto simp: gameInv_def)
  then have "mset (map suitRank (zones s)) = mset (List.product SUITS RANKS)"
    by (simp add: fullDeck_def)
  then have "length (map suitRank (zones s)) = length (List.product SUITS RANKS)"
    by (rule mset_eq_length)
  then have "length (zones s) = 52" by (simp add: SUITS_def RANKS_def)
  then have "zoneCount s = 52" by (simp add: zoneCount_def zones_def)
  with f show ?thesis by (simp add: fullDeck_def)
qed

theorem reachable_full_deck_witness:
  "reachable exAfterDraw \<and> status exAfterDraw \<noteq> Menu
   \<and> zoneCount exAfterDraw = 52
   \<and> distinct (map card_id (zones exAfterDraw))
   \<and> mset (map suitRank (zones exAfterDraw)) = mset (List.product SUITS RANKS)"
proof -
  have "reachable exDealt" using example_deal by (rule reachable.start)
  moreover have "playsHeldCard exDealt (DRAW Player)" by simp
  ultimately have r: "reachable exAfterDraw" using example_draw by (rule reachable.step)
  have m: "status exAfterDraw \<noteq> Menu" by (simp add: exAfterDraw_def)
  from reachable_full_deck [OF r m] r m show ?thesis by simp
qed

text \<open>
  Claim C2 as stated fails when a play intent carries a card that the acting hand does
  not hold: after the deal, the reducer applies the player's play of a card of the
  computer's hand, and the card is then both in that hand and on the discard pile, with
  53 cards in the zones.
\<close>

theorem foreign_card_play_breaks_count:
  "gameReducer rnd0 now0 initialState START_GAME = Some exDealt
   \<and> nthCard 9 \<in> set (aiHand exDealt)
   \<and> map_option aiHand (gameReducer rnd0 now0 exDealt (PLAYER_PLAY (nthCard 9)))
       = Some (aiHand exDealt)
   \<and> map_option discardPile (gameReducer rnd0 now0 exDealt (PLAYER_PLAY (nthCard 9)))
       = Some [nthCard 51, nthCard 9]
   \<and> map_option zoneCount (gameReducer rnd0 now0 exDealt (PLAYER_PLAY (nthCard 9)))
       = Some 53"
proof -
  have "nthCard 9 \<in> set (aiHand exDealt)" by code_simp
  moreover have "map_option aiHand (gameReducer rnd0 now0 exDealt (PLAYER_PLAY (nthCard 9)))
       = Some (aiHand exDealt)"
    by (simp add: reducer_simps)
  moreover have "map_option discardPile (gameReducer rnd0 now0 exDealt (PLAYER_PLAY (nthCard 9)))
       = Some [nthCard 51, nthCard 9]"
    by (simp add: reducer_simps exDealt_def)
  moreover have "map_option zoneCount (gameReducer rnd0 now0 exDealt (PLAYER_PLAY (nthCard 9)))
       = Some 53"
    by code_simp
  ultimately show ?thesis using example_deal by simp
qed

end
